theory Spec2Isabelle
  imports Main "HOL-Library.AList" "HOL-Library.Multiset"
begin

section \<open>Values, errors and the rows of the Partify models\<close>

text \<open>
  The models of \<^verbatim>\<open>partify/models.py\<close> are SQLAlchemy declarative classes. An instance
  is a record of its attributes. No column of the source is declared
  \<^verbatim>\<open>nullable=False\<close>, and a primary key is None on an object that is not inserted yet, so
  every column attribute is an \<open>option\<close>, with \<open>None\<close> for Python's None and SQL's NULL.
  A field is named after its table and its
  attribute: \<open>pqe_user_priority\<close> is \<^verbatim>\<open>PlayQueueEntry.user_priority\<close>, \<open>vote_pqe_id\<close> is
  \<^verbatim>\<open>Vote.pqe_id\<close> (the source itself shortens the two entry classes to pqe and phe).
  A table is the list of its rows in insertion order. Integers are Python's unbounded
  ints.
\<close>

datatype datetime = Datetime int int int int int int int

datatype py_error = AttributeError | TypeError

record user =
  user_id :: "int option"
  user_name :: "string option"
  user_username :: "string option"
  user_password :: "string option"
  user_privs :: "int option"

record track =
  track_id :: "int option"
  track_title :: "string option"
  track_artist :: "string option"
  track_album :: "string option"
  track_length :: "int option"
  track_date :: "string option"
  track_spotify_url :: "string option"

text \<open>
  A \<^verbatim>\<open>PlayQueueEntry\<close> has the foreign-key columns \<open>track_id\<close> and \<open>user_id\<close> and the
  relationship attributes \<open>track\<close> and \<open>user\<close>, which hold the referenced object or None.
\<close>

record play_queue_entry =
  pqe_id :: "int option"
  pqe_track_id :: "int option"
  pqe_track :: "track option"
  pqe_user_id :: "int option"
  pqe_user :: "user option"
  pqe_mpd_id :: "int option"
  pqe_time_added :: "datetime option"
  pqe_user_priority :: "int option"
  pqe_playback_priority :: "int option"

text \<open>
  A \<^verbatim>\<open>Vote\<close> row: the columns only (no code of the models reads its relationship
  attributes). The two targets are two nullable foreign keys.
\<close>

record vote =
  vote_id :: "int option"
  vote_user_id :: "int option"
  vote_pqe_id :: "int option"
  vote_phe_id :: "int option"
  vote_direction :: "int option"

text \<open>The values an attribute read by \<^verbatim>\<open>getattr\<close> can have, and that \<^verbatim>\<open>as_dict\<close> stores.\<close>

datatype py_value =
  PyNone | PyInt int | PyStr string | PyDateTime datetime | PyTrack track | PyUser user

type_synonym py_dict = "(string \<times> py_value) list"

definition of_int_column :: "int option \<Rightarrow> py_value" where
  "of_int_column c = (case c of None \<Rightarrow> PyNone | Some i \<Rightarrow> PyInt i)"

definition of_str_column :: "string option \<Rightarrow> py_value" where
  "of_str_column c = (case c of None \<Rightarrow> PyNone | Some s \<Rightarrow> PyStr s)"

section \<open>Column defaults\<close>

text \<open>
  \<^verbatim>\<open>db.func.max(column)\<close> over the table: SQL's MAX skips NULL and is NULL when no row has
  a value. \<^verbatim>\<open>x or 0\<close> is 0 when x is None or 0, and x otherwise.
\<close>

fun func_max :: "int option list \<Rightarrow> int option" where
  "func_max [] = None"
| "func_max (None # xs) = func_max xs"
| "func_max (Some v # xs) = (case func_max xs of None \<Rightarrow> Some v | Some m \<Rightarrow> Some (max v m))"

definition or_zero :: "int option \<Rightarrow> int" where
  "or_zero x = (case x of None \<Rightarrow> 0 | Some v \<Rightarrow> if v = 0 then 0 else v)"

definition default_user_priority :: "play_queue_entry list \<Rightarrow> int" where
  "default_user_priority tbl = or_zero (func_max (map pqe_user_priority tbl)) + 1"

definition default_playback_priority :: "play_queue_entry list \<Rightarrow> int" where
  "default_playback_priority tbl = or_zero (func_max (map pqe_playback_priority tbl)) + 1"

definition column_or_default :: "'a option \<Rightarrow> 'a \<Rightarrow> 'a option" where
  "column_or_default given dflt = (case given of None \<Rightarrow> Some dflt | Some v \<Rightarrow> Some v)"

text \<open>
  The INSERT of a flush. A column the object does not set gets its \<^verbatim>\<open>default\<close>: the
  primary key is the one the database hands out (\<open>new_id\<close>), \<^verbatim>\<open>time_added\<close> is
  \<^verbatim>\<open>datetime.datetime.now()\<close> (\<open>now\<close>), the two priorities are the lambdas of the
  source, evaluated on the table as it is before the row is added. A foreign key follows its
  relationship attribute when that is set.

  The model covers the INSERT of an entry whose track and user are rows that are stored
  already, on values the database can store. It leaves out what the ORM and the database do
  beyond that: the INSERT of a new track or user that the entry refers to, the loading of a
  relationship attribute from a foreign key that was set by hand, and the error the database
  driver raises for an integer beyond what the column can store. Values are Python's
  unbounded ints.
\<close>

definition insert_play_queue_entry ::
  "int \<Rightarrow> datetime \<Rightarrow> play_queue_entry \<Rightarrow> play_queue_entry list \<Rightarrow> play_queue_entry list" where
  "insert_play_queue_entry new_id now e tbl =
     tbl @ [e\<lparr>pqe_id := column_or_default (pqe_id e) new_id,
             pqe_track_id := (case pqe_track e of None \<Rightarrow> pqe_track_id e | Some t \<Rightarrow> track_id t),
             pqe_user_id := (case pqe_user e of None \<Rightarrow> pqe_user_id e | Some u \<Rightarrow> user_id u),
             pqe_time_added := column_or_default (pqe_time_added e) now,
             pqe_user_priority := column_or_default (pqe_user_priority e) (default_user_priority tbl),
             pqe_playback_priority :=
               column_or_default (pqe_playback_priority e) (default_playback_priority tbl)\<rparr>]"

text \<open>
  The declarative constructor of \<^verbatim>\<open>PlayQueueEntry\<close> (the class has no \<^verbatim>\<open>__init__\<close> of its
  own) with the keywords \<open>track\<close>, \<open>user\<close> and \<open>mpd_id\<close>: every other attribute is unset.
\<close>

definition PlayQueueEntry :: "track option \<Rightarrow> user option \<Rightarrow> int option \<Rightarrow> play_queue_entry" where
  "PlayQueueEntry trk usr mpd =
     \<lparr>pqe_id = None, pqe_track_id = None, pqe_track = trk, pqe_user_id = None, pqe_user = usr,
      pqe_mpd_id = mpd, pqe_time_added = None, pqe_user_priority = None,
      pqe_playback_priority = None\<rparr>"

text \<open>
  Modelled from the spec: \<open>enqueue(track, user_or_none, backend_slot_id_or_none)\<close>, whose
  caller is not in the source files. "Creates a QueueEntry": the constructor, then the INSERT
  above. No priority is given, so both priorities come from the column defaults of the
  source. A request carries, with the three arguments, the key and the clock reading the
  INSERT uses; \<open>enqueue_all\<close> runs the requests one after the other.
\<close>

record enqueue_request =
  req_new_id :: int
  req_now :: datetime
  req_track :: "track option"
  req_user :: "user option"
  req_mpd_id :: "int option"

definition enqueue :: "enqueue_request \<Rightarrow> play_queue_entry list \<Rightarrow> play_queue_entry list" where
  "enqueue r tbl =
     insert_play_queue_entry (req_new_id r) (req_now r)
       (PlayQueueEntry (req_track r) (req_user r) (req_mpd_id r)) tbl"

fun enqueue_all :: "enqueue_request list \<Rightarrow> play_queue_entry list \<Rightarrow> play_queue_entry list" where
  "enqueue_all [] tbl = tbl"
| "enqueue_all (r # rs) tbl = enqueue_all rs (enqueue r tbl)"

section \<open>The external view of a queue entry\<close>

text \<open>
  \<^verbatim>\<open>getattr(obj, attr)\<close> on a column or relationship attribute of each class. Reading an
  attribute of None, or one the class does not have, raises AttributeError.
\<close>

definition getattr_track :: "track option \<Rightarrow> string \<Rightarrow> py_error + py_value" where
  "getattr_track obj attr =
     (case obj of None \<Rightarrow> Inl AttributeError
      | Some t \<Rightarrow>
          if attr = ''id'' then Inr (of_int_column (track_id t))
          else if attr = ''title'' then Inr (of_str_column (track_title t))
          else if attr = ''artist'' then Inr (of_str_column (track_artist t))
          else if attr = ''album'' then Inr (of_str_column (track_album t))
          else if attr = ''length'' then Inr (of_int_column (track_length t))
          else if attr = ''date'' then Inr (of_str_column (track_date t))
          else if attr = ''spotify_url'' then Inr (of_str_column (track_spotify_url t))
          else Inl AttributeError)"

definition getattr_play_queue_entry :: "play_queue_entry \<Rightarrow> string \<Rightarrow> py_error + py_value" where
  "getattr_play_queue_entry self attr =
     (if attr = ''id'' then Inr (of_int_column (pqe_id self))
      else if attr = ''track_id'' then Inr (of_int_column (pqe_track_id self))
      else if attr = ''track'' then
        Inr (case pqe_track self of None \<Rightarrow> PyNone | Some t \<Rightarrow> PyTrack t)
      else if attr = ''user_id'' then Inr (of_int_column (pqe_user_id self))
      else if attr = ''user'' then
        Inr (case pqe_user self of None \<Rightarrow> PyNone | Some u \<Rightarrow> PyUser u)
      else if attr = ''mpd_id'' then Inr (of_int_column (pqe_mpd_id self))
      else if attr = ''time_added'' then
        Inr (case pqe_time_added self of None \<Rightarrow> PyNone | Some t \<Rightarrow> PyDateTime t)
      else if attr = ''user_priority'' then Inr (of_int_column (pqe_user_priority self))
      else if attr = ''playback_priority'' then Inr (of_int_column (pqe_playback_priority self))
      else Inl AttributeError)"

text \<open>
  \<^verbatim>\<open>getattr(obj, attr, default)\<close> on a user or None, for the column attributes: the
  default is returned when the plain read would raise AttributeError, that is on None and
  on a name that is no attribute. An attribute that exists and holds None is returned as
  None.
\<close>

definition getattr_user :: "user option \<Rightarrow> string \<Rightarrow> py_value \<Rightarrow> py_value" where
  "getattr_user obj attr dflt =
     (case obj of None \<Rightarrow> dflt
      | Some u \<Rightarrow>
          if attr = ''id'' then of_int_column (user_id u)
          else if attr = ''name'' then of_str_column (user_name u)
          else if attr = ''username'' then of_str_column (user_username u)
          else if attr = ''password'' then of_str_column (user_password u)
          else if attr = ''privs'' then of_int_column (user_privs u)
          else dflt)"

text \<open>
  The two loops of \<^verbatim>\<open>as_dict\<close>: \<^verbatim>\<open>for attr in (...): d[attr] = getattr(obj, attr)\<close>.
  \<^verbatim>\<open>d[k] = v\<close> replaces the value of a key the dict has and adds the key otherwise.
\<close>

fun copy_attrs :: "(string \<Rightarrow> py_error + py_value) \<Rightarrow> string list \<Rightarrow> py_dict \<Rightarrow> py_error + py_dict" where
  "copy_attrs get [] d = Inr d"
| "copy_attrs get (attr # attrs) d =
     (case get attr of
        Inl e \<Rightarrow> Inl e
      | Inr v \<Rightarrow> copy_attrs get attrs (AList.update attr v d))"

text \<open>
  \<^verbatim>\<open>PlayQueueEntry.as_dict\<close>. \<open>ctime\<close> is \<^verbatim>\<open>datetime.ctime\<close> of the standard library;
  \<^verbatim>\<open>self.time_added.ctime()\<close> raises AttributeError when \<^verbatim>\<open>time_added\<close> is None.
\<close>

definition as_dict :: "(datetime \<Rightarrow> string) \<Rightarrow> play_queue_entry \<Rightarrow> py_error + py_dict" where
  "as_dict ctime self =
     (case copy_attrs (getattr_track (pqe_track self))
             [''title'', ''artist'', ''album'', ''spotify_url'', ''date'', ''length''] [] of
        Inl e \<Rightarrow> Inl e
      | Inr d1 \<Rightarrow>
     (case copy_attrs (getattr_play_queue_entry self)
             [''id'', ''mpd_id'', ''playback_priority'', ''user_priority''] d1 of
        Inl e \<Rightarrow> Inl e
      | Inr d2 \<Rightarrow>
     (case pqe_time_added self of
        None \<Rightarrow> Inl AttributeError
      | Some t \<Rightarrow>
          let d3 = AList.update ''time_added'' (PyStr (ctime t)) d2;
              d4 = AList.update ''user''
                     (getattr_user (pqe_user self) ''name'' (PyStr ''Anonymous'')) d3;
              d5 = AList.update ''username''
                     (getattr_user (pqe_user self) ''username'' (PyStr ''anonymous'')) d4;
              d6 = AList.update ''user_id'' (of_int_column (pqe_user_id self)) d5
          in Inr d6)))"

section \<open>Users\<close>

text \<open>
  \<^verbatim>\<open>User.__init__(self, name=None, username=None, password=None)\<close>. Werkzeug's
  \<^verbatim>\<open>generate_password_hash\<close> is a parameter: it returns the hash string or raises, and
  when it raises no user is built.
\<close>

definition User_init ::
  "(string option \<Rightarrow> py_error + string) \<Rightarrow> string option \<Rightarrow> string option \<Rightarrow> string option
     \<Rightarrow> py_error + user" where
  "User_init generate_password_hash name username password =
     (case generate_password_hash password of
        Inl e \<Rightarrow> Inl e
      | Inr h \<Rightarrow>
          Inr \<lparr>user_id = None, user_name = name, user_username = username,
               user_password = Some h, user_privs = Some 0\<rparr>)"

section \<open>Votes\<close>

text \<open>
  The INSERT of a \<^verbatim>\<open>Vote\<close>: the primary key from the database, \<^verbatim>\<open>direction\<close> from its
  \<^verbatim>\<open>default=0\<close> when the object does not set it, every other column as the object has it.
\<close>

definition insert_vote :: "int \<Rightarrow> vote \<Rightarrow> vote list \<Rightarrow> vote list" where
  "insert_vote new_id v tbl =
     tbl @ [v\<lparr>vote_id := column_or_default (vote_id v) new_id,
             vote_direction := column_or_default (vote_direction v) 0\<rparr>]"

text \<open>Exactly one of the two references of a vote is set.\<close>

definition has_one_target :: "vote \<Rightarrow> bool" where
  "has_one_target v = ((vote_pqe_id v = None) \<noteq> (vote_phe_id v = None))"

text \<open>A direction is one of -1 (down), 0 and 1 (up).\<close>

definition valid_direction :: "int option \<Rightarrow> bool" where
  "valid_direction d = (d = Some (- 1) \<or> d = Some 0 \<or> d = Some 1)"

subsection \<open>The vote aggregator\<close>

text \<open>
  Modelled from the spec: the target of a vote, which the source files have only as the two
  foreign keys of \<open>vote\<close>. "\<open>Target = QueueTarget(id) | HistoryTarget(id)\<close>."
\<close>

datatype target = QueueTarget int | HistoryTarget int

text \<open>
  Modelled from the spec: "a Vote whose target was the queue entry" (or the history
  entry), read on the rows of the source: the foreign key of the target's kind holds the
  target's id.
\<close>

fun on_target :: "target \<Rightarrow> vote \<Rightarrow> bool" where
  "on_target (QueueTarget q) v = (vote_pqe_id v = Some q)"
| "on_target (HistoryTarget h) v = (vote_phe_id v = Some h)"

text \<open>Modelled from the spec: the "Vote rows for (user, target)".\<close>

definition votes_for :: "int \<Rightarrow> target \<Rightarrow> vote list \<Rightarrow> vote list" where
  "votes_for u t votes = filter (\<lambda>v. vote_user_id v = Some u \<and> on_target t v) votes"

text \<open>
  Modelled from the spec: the row \<open>cast_vote\<close> inserts, built by the constructor of the
  source's \<^verbatim>\<open>Vote\<close> from the user, the foreign key of the target's kind and the direction.
\<close>

definition Vote :: "int \<Rightarrow> target \<Rightarrow> int \<Rightarrow> vote" where
  "Vote u t d =
     \<lparr>vote_id = None, vote_user_id = Some u,
      vote_pqe_id = (case t of QueueTarget q \<Rightarrow> Some q | HistoryTarget h \<Rightarrow> None),
      vote_phe_id = (case t of QueueTarget q \<Rightarrow> None | HistoryTarget h \<Rightarrow> Some h),
      vote_direction = Some d\<rparr>"

text \<open>
  Modelled from the spec: "update its direction in place", on the first row for the user
  and target; the other rows, and the other columns of that row, stay as they are.
\<close>

fun set_direction :: "int \<Rightarrow> target \<Rightarrow> int \<Rightarrow> vote list \<Rightarrow> vote list" where
  "set_direction u t d [] = []"
| "set_direction u t d (v # vs) =
     (if vote_user_id v = Some u \<and> on_target t v then v\<lparr>vote_direction := Some d\<rparr> # vs
      else v # set_direction u t d vs)"

text \<open>
  Modelled from the spec: \<open>cast_vote(user, target, direction)\<close>, which is not in the source
  files. "If a Vote row for (user, target) exists, update its direction in place; else
  insert one." \<open>new_id\<close> is the primary key the database gives an inserted row.
\<close>

definition cast_vote :: "int \<Rightarrow> int \<Rightarrow> target \<Rightarrow> int \<Rightarrow> vote list \<Rightarrow> vote list" where
  "cast_vote new_id u t d votes =
     (if votes_for u t votes = [] then insert_vote new_id (Vote u t d) votes
      else set_direction u t d votes)"

text \<open>
  Modelled from the spec: a run of \<open>cast_vote\<close> calls, one after the other, each with the
  key for the row it may insert.
\<close>

fun cast_votes :: "(int \<times> int \<times> target \<times> int) list \<Rightarrow> vote list \<Rightarrow> vote list" where
  "cast_votes [] votes = votes"
| "cast_votes ((new_id, u, t, d) # cs) votes = cast_votes cs (cast_vote new_id u t d votes)"

text \<open>
  Modelled from the spec: \<open>tally(target)\<close>, which is not in the source files. "Sum of
  directions across all Votes for that target." A NULL direction adds nothing, as in SQL's
  SUM.
\<close>

definition tally :: "target \<Rightarrow> vote list \<Rightarrow> int" where
  "tally t votes =
     sum_list (map (\<lambda>v. case vote_direction v of None \<Rightarrow> 0 | Some d \<Rightarrow> d)
       (filter (on_target t) votes))"

text \<open>
  Modelled from the spec: \<open>migrate_votes(old_queue_entry, new_history_entry)\<close>, which is not
  in the source files. "Re-point every Vote whose target was the queue entry to the new
  history entry, preserving direction and user."
\<close>

definition migrate_votes :: "int \<Rightarrow> int \<Rightarrow> vote list \<Rightarrow> vote list" where
  "migrate_votes q h votes =
     map (\<lambda>v. if on_target (QueueTarget q) v
               then v\<lparr>vote_pqe_id := None, vote_phe_id := Some h\<rparr> else v) votes"

section \<open>Notions the properties are stated with\<close>

text \<open>The values of a nullable column that are not NULL.\<close>

definition non_null :: "'a option list \<Rightarrow> 'a set" where
  "non_null xs = {v. Some v \<in> set xs}"

text \<open>
  The priority the specification gives a new entry for a column: one more than the largest
  value the column holds, an empty column counting as 0.
\<close>

definition next_priority :: "int option list \<Rightarrow> int" where
  "next_priority col = (if non_null col = {} then 0 else Max (non_null col)) + 1"

text \<open>At most one vote row for each user and target.\<close>

definition vote_unique :: "vote list \<Rightarrow> bool" where
  "vote_unique votes = (\<forall>u t. length (votes_for u t votes) \<le> 1)"

text \<open>The field set the specification lists for the external view.\<close>

definition spec_fields :: "string set" where
  "spec_fields =
     {''title'', ''artist'', ''album'', ''spotify_url'', ''date'', ''length'',
      ''id'', ''mpd_id'', ''playback_priority'', ''user_priority'',
      ''time_added'', ''user'', ''username''}"

section \<open>Example rows\<close>

definition track_a :: track where
  "track_a =
     \<lparr>track_id = Some 3, track_title = Some ''Song A'', track_artist = Some ''Artist'',
      track_album = None, track_length = Some 215, track_date = Some ''2011'',
      track_spotify_url = Some ''spotify:track:a''\<rparr>"

definition user_bob :: user where
  "user_bob =
     \<lparr>user_id = Some 2, user_name = None, user_username = Some ''bob'',
      user_password = Some ''sha1$salt$hash'', user_privs = Some 0\<rparr>"

definition stamp :: datetime where
  "stamp = Datetime 2011 11 4 12 25 0 0"

definition ctime_a :: "datetime \<Rightarrow> string" where
  "ctime_a t = ''Fri Nov  4 12:25:00 2011''"

definition entry_anonymous :: play_queue_entry where
  "entry_anonymous =
     \<lparr>pqe_id = Some 7, pqe_track_id = Some 3, pqe_track = Some track_a, pqe_user_id = None,
      pqe_user = None, pqe_mpd_id = Some 12, pqe_time_added = Some stamp,
      pqe_user_priority = Some 1, pqe_playback_priority = Some 1\<rparr>"

definition entry_bob :: play_queue_entry where
  "entry_bob = entry_anonymous\<lparr>pqe_user_id := Some 2, pqe_user := Some user_bob\<rparr>"

definition request_a :: enqueue_request where
  "request_a =
     \<lparr>req_new_id = 1, req_now = stamp, req_track = Some track_a, req_user = None,
      req_mpd_id = Some 12\<rparr>"

definition request_b :: enqueue_request where
  "request_b = request_a\<lparr>req_new_id := 2, req_user := Some user_bob, req_mpd_id := None\<rparr>"

text \<open>Votes.\<close>

definition vote_no_target :: vote where
  "vote_no_target =
     \<lparr>vote_id = None, vote_user_id = Some 10, vote_pqe_id = None, vote_phe_id = None,
      vote_direction = None\<rparr>"

definition vote_two_targets :: vote where
  "vote_two_targets = vote_no_target\<lparr>vote_pqe_id := Some 5, vote_phe_id := Some 9\<rparr>"

definition vote_five :: vote where
  "vote_five = vote_no_target\<lparr>vote_pqe_id := Some 5, vote_direction := Some 5\<rparr>"

definition vote_alice :: vote where
  "vote_alice =
     \<lparr>vote_id = Some 1, vote_user_id = Some 10, vote_pqe_id = Some 5, vote_phe_id = None,
      vote_direction = Some 1\<rparr>"

definition vote_bob :: vote where
  "vote_bob =
     \<lparr>vote_id = Some 2, vote_user_id = Some 11, vote_pqe_id = Some 5, vote_phe_id = None,
      vote_direction = Some (- 1)\<rparr>"

section \<open>Priorities assigned on enqueue\<close>

lemma non_null_simps:
  "non_null [] = {}"
  "non_null (None # xs) = non_null xs"
  "non_null (Some v # xs) = insert v (non_null xs)"
  by (auto simp: non_null_def)

lemma finite_non_null: "finite (non_null xs)"
proof (induction xs)
  case Nil
  show ?case by (simp add: non_null_simps)
next
  case (Cons x xs)
  then show ?case by (cases x) (simp_all add: non_null_simps)
qed

lemma func_max_Max:
  "func_max xs = (if non_null xs = {} then None else Some (Max (non_null xs)))"
proof (induction xs rule: func_max.induct)
  case 1
  show ?case by (simp add: non_null_simps)
next
  case (2 xs)
  then show ?case by (simp add: non_null_simps)
next
  case (3 v xs)
  then show ?case
    by (simp add: non_null_simps finite_non_null)
qed

lemma non_null_counting:
  "non_null (map (\<lambda>i. Some (int i)) [Suc 0..<Suc n]) = int ` {Suc 0..n}"
  by (auto simp: non_null_def)

lemma Max_counting: "0 < n \<Longrightarrow> Max (int ` {Suc 0..n}) = int n"
  by (rule Max_eqI) auto

lemma or_zero_func_max_counting:
  "or_zero (func_max (map (\<lambda>i. Some (int i)) [Suc 0..<Suc n])) = int n"
proof (cases "n = 0")
  case True
  then show ?thesis by (simp add: or_zero_def)
next
  case False
  then have "int ` {Suc 0..n} \<noteq> {}" and "Max (int ` {Suc 0..n}) = int n"
    by (simp_all add: Max_counting)
  then show ?thesis
    using False unfolding func_max_Max non_null_counting by (simp add: or_zero_def)
qed

lemma enqueue_appends:
  "enqueue r tbl = tbl @
     [\<lparr>pqe_id = Some (req_new_id r),
       pqe_track_id = (case req_track r of None \<Rightarrow> None | Some t \<Rightarrow> track_id t),
       pqe_track = req_track r,
       pqe_user_id = (case req_user r of None \<Rightarrow> None | Some u \<Rightarrow> user_id u),
       pqe_user = req_user r, pqe_mpd_id = req_mpd_id r, pqe_time_added = Some (req_now r),
       pqe_user_priority = Some (default_user_priority tbl),
       pqe_playback_priority = Some (default_playback_priority tbl)\<rparr>]"
  by (simp add: enqueue_def insert_play_queue_entry_def PlayQueueEntry_def column_or_default_def
      split: option.split)

lemma enqueue_all_counting:
  assumes "map pqe_user_priority tbl = map (\<lambda>i. Some (int i)) [Suc 0..<Suc n]"
    and "map pqe_playback_priority tbl = map (\<lambda>i. Some (int i)) [Suc 0..<Suc n]"
  shows "map pqe_user_priority (enqueue_all rs tbl) =
           map (\<lambda>i. Some (int i)) [Suc 0..<Suc (n + length rs)] \<and>
         map pqe_playback_priority (enqueue_all rs tbl) =
           map (\<lambda>i. Some (int i)) [Suc 0..<Suc (n + length rs)]"
  using assms
proof (induction rs arbitrary: tbl n)
  case Nil
  then show ?case by simp
next
  case (Cons r rs)
  have u: "default_user_priority tbl = int (Suc n)"
    by (simp add: default_user_priority_def Cons.prems(1) or_zero_func_max_counting
        del: upt_Suc)
  have p: "default_playback_priority tbl = int (Suc n)"
    by (simp add: default_playback_priority_def Cons.prems(2) or_zero_func_max_counting
        del: upt_Suc)
  have "map pqe_user_priority (enqueue r tbl) = map (\<lambda>i. Some (int i)) [Suc 0..<Suc (Suc n)]"
    using Cons.prems(1) by (simp add: enqueue_appends u)
  moreover have "map pqe_playback_priority (enqueue r tbl) =
      map (\<lambda>i. Some (int i)) [Suc 0..<Suc (Suc n)]"
    using Cons.prems(2) by (simp add: enqueue_appends p)
  ultimately show ?case
    using Cons.IH [of "enqueue r tbl" "Suc n"] by simp
qed

lemma or_zero_func_max: "or_zero (func_max col) + 1 = next_priority col"
  by (simp add: func_max_Max next_priority_def or_zero_def)

lemma next_priority_above:
  assumes "p \<in> non_null col"
  shows "p < next_priority col"
proof -
  from assms have "non_null col \<noteq> {}" by auto
  moreover have "p \<le> Max (non_null col)"
    using assms by (simp add: finite_non_null)
  ultimately show ?thesis by (simp add: next_priority_def)
qed

text \<open>
  Claim C1. An INSERT of an entry that sets no priority gives it, in each priority column,
  one more than the largest value the column holds over the whole table (an empty column
  counting as 0), and leaves the rows already there as they are; so does an enqueue. On an
  empty table both priorities are 1, and after any run of enqueues that starts from the
  empty table both columns read 1, 2, 3, ... in enqueue order.
\<close>

theorem enqueue_assigns_max_plus_one:
  "(pqe_user_priority e = None \<longrightarrow>
      pqe_user_priority (last (insert_play_queue_entry new_id now e tbl)) =
        Some (next_priority (map pqe_user_priority tbl))) \<and>
   (pqe_playback_priority e = None \<longrightarrow>
      pqe_playback_priority (last (insert_play_queue_entry new_id now e tbl)) =
        Some (next_priority (map pqe_playback_priority tbl))) \<and>
   butlast (insert_play_queue_entry new_id now e tbl) = tbl \<and>
   pqe_user_priority (last (enqueue r tbl)) =
     Some (next_priority (map pqe_user_priority tbl)) \<and>
   pqe_playback_priority (last (enqueue r tbl)) =
     Some (next_priority (map pqe_playback_priority tbl)) \<and>
   butlast (enqueue r tbl) = tbl \<and>
   pqe_user_priority (last (enqueue r [])) = Some 1 \<and>
   pqe_playback_priority (last (enqueue r [])) = Some 1 \<and>
   map pqe_user_priority (enqueue_all rs []) = map (\<lambda>i. Some (int i)) [1..<Suc (length rs)] \<and>
   map pqe_playback_priority (enqueue_all rs []) = map (\<lambda>i. Some (int i)) [1..<Suc (length rs)]"
proof -
  note step = or_zero_func_max
  have iu: "pqe_user_priority (last (insert_play_queue_entry new_id now e tbl)) =
      Some (next_priority (map pqe_user_priority tbl))" if "pqe_user_priority e = None"
    using that
    by (simp add: insert_play_queue_entry_def column_or_default_def default_user_priority_def step)
  have ip: "pqe_playback_priority (last (insert_play_queue_entry new_id now e tbl)) =
      Some (next_priority (map pqe_playback_priority tbl))" if "pqe_playback_priority e = None"
    using that
    by (simp add: insert_play_queue_entry_def column_or_default_def
        default_playback_priority_def step)
  have ib: "butlast (insert_play_queue_entry new_id now e tbl) = tbl"
    by (simp add: insert_play_queue_entry_def)
  have u: "pqe_user_priority (last (enqueue r tbl)) = Some (next_priority (map pqe_user_priority tbl))"
    for tbl
    by (simp add: enqueue_appends default_user_priority_def step)
  have p: "pqe_playback_priority (last (enqueue r tbl)) =
      Some (next_priority (map pqe_playback_priority tbl))" for tbl
    by (simp add: enqueue_appends default_playback_priority_def step)
  have e: "next_priority [] = 1"
    by (simp add: next_priority_def non_null_simps)
  have b: "butlast (enqueue r tbl) = tbl"
    by (simp add: enqueue_appends)
  have s: "map pqe_user_priority (enqueue_all rs []) =
             map (\<lambda>i. Some (int i)) [Suc 0..<Suc (0 + length rs)] \<and>
           map pqe_playback_priority (enqueue_all rs []) =
             map (\<lambda>i. Some (int i)) [Suc 0..<Suc (0 + length rs)]"
    by (rule enqueue_all_counting) simp_all
  from iu ip ib u [of tbl] p [of tbl] u [of "[]"] p [of "[]"] e b s show ?thesis
    by (simp del: upt_Suc)
qed

text \<open>
  Instances of C1: an entry built with no priority, inserted after one row with both
  priorities 1, gets 2 and 2; three enqueues from the empty table get 1, 2, 3.
\<close>

theorem enqueue_assigns_max_plus_one_witness:
  "pqe_user_priority (PlayQueueEntry (Some track_a) None None) = None \<and>
   pqe_playback_priority (PlayQueueEntry (Some track_a) None None) = None \<and>
   pqe_user_priority
     (last (insert_play_queue_entry 8 stamp (PlayQueueEntry (Some track_a) None None)
        [entry_anonymous])) = Some 2 \<and>
   pqe_playback_priority
     (last (insert_play_queue_entry 8 stamp (PlayQueueEntry (Some track_a) None None)
        [entry_anonymous])) = Some 2 \<and>
   map pqe_user_priority (enqueue_all [request_a, request_b, request_a] []) =
     [Some 1, Some 2, Some 3] \<and>
   map pqe_playback_priority (enqueue_all [request_a, request_b, request_a] []) =
     [Some 1, Some 2, Some 3]"
proof -
  have n: "next_priority [Some 1] = 2"
    by (simp add: next_priority_def non_null_simps)
  show ?thesis
    using enqueue_assigns_max_plus_one [where e = "PlayQueueEntry (Some track_a) None None"
        and new_id = 8 and now = stamp and tbl = "[entry_anonymous]" and r = request_a
        and rs = "[request_a, request_b, request_a]"]
    by (simp add: upt_rec PlayQueueEntry_def entry_anonymous_def n)
qed

text \<open>
  Both defaults are the same function of their own column, and lie above every value the
  column holds.
\<close>

lemma default_priorities_above:
  "default_user_priority tbl = next_priority (map pqe_user_priority tbl) \<and>
   default_playback_priority tbl = next_priority (map pqe_playback_priority tbl) \<and>
   (\<forall>p \<in> non_null (map pqe_user_priority tbl). p < default_user_priority tbl) \<and>
   (\<forall>p \<in> non_null (map pqe_playback_priority tbl). p < default_playback_priority tbl)"
  by (simp add: default_user_priority_def default_playback_priority_def or_zero_func_max
      next_priority_above)

section \<open>The external view\<close>

text \<open>
  With a track and a timestamp \<^verbatim>\<open>as_dict\<close> returns the dict below; without either it
  raises AttributeError, and it raises nothing else.
\<close>

lemma as_dict_returns:
  assumes "pqe_track self = Some t" and "pqe_time_added self = Some ts"
  shows "as_dict ctime self =
    Inr [(''title'', of_str_column (track_title t)),
         (''artist'', of_str_column (track_artist t)),
         (''album'', of_str_column (track_album t)),
         (''spotify_url'', of_str_column (track_spotify_url t)),
         (''date'', of_str_column (track_date t)),
         (''length'', of_int_column (track_length t)),
         (''id'', of_int_column (pqe_id self)),
         (''mpd_id'', of_int_column (pqe_mpd_id self)),
         (''playback_priority'', of_int_column (pqe_playback_priority self)),
         (''user_priority'', of_int_column (pqe_user_priority self)),
         (''time_added'', PyStr (ctime ts)),
         (''user'', getattr_user (pqe_user self) ''name'' (PyStr ''Anonymous'')),
         (''username'', getattr_user (pqe_user self) ''username'' (PyStr ''anonymous'')),
         (''user_id'', of_int_column (pqe_user_id self))]"
  using assms
  by (simp add: as_dict_def getattr_track_def getattr_play_queue_entry_def)

lemma as_dict_raises:
  "as_dict ctime self = Inl e \<longleftrightarrow>
     e = AttributeError \<and> (pqe_track self = None \<or> pqe_time_added self = None)"
proof (cases "pqe_track self")
  case None
  then show ?thesis by (auto simp: as_dict_def getattr_track_def)
next
  case (Some t)
  show ?thesis
  proof (cases "pqe_time_added self")
    case None
    with Some show ?thesis
      by (auto simp: as_dict_def getattr_track_def getattr_play_queue_entry_def)
  next
    case (Some ts)
    with \<open>pqe_track self = Some t\<close> show ?thesis
      by (simp add: as_dict_returns)
  qed
qed

lemma as_dict_cases:
  obtains (raises) "as_dict ctime self = Inl AttributeError"
      and "pqe_track self = None \<or> pqe_time_added self = None"
    | (returns) t ts where "pqe_track self = Some t" and "pqe_time_added self = Some ts"
proof (cases "pqe_track self = None \<or> pqe_time_added self = None")
  case True
  then have "as_dict ctime self = Inl AttributeError"
    by (simp add: as_dict_raises)
  from raises [OF this True] show ?thesis .
next
  case False
  then show ?thesis by (auto intro: returns)
qed

text \<open>
  Claim C5. For a queue entry with no attached user, \<^verbatim>\<open>as_dict\<close> gives \<^verbatim>\<open>'Anonymous'\<close>
  as the \<open>user\<close> field and \<^verbatim>\<open>'anonymous'\<close> as the \<open>username\<close> field. (It returns unless the
  entry has no track or no timestamp, where it raises AttributeError.)
\<close>

theorem as_dict_anonymous_fallback:
  assumes "pqe_user self = None"
  shows "case as_dict ctime self of
           Inr d \<Rightarrow> map_of d ''user'' = Some (PyStr ''Anonymous'') \<and>
                    map_of d ''username'' = Some (PyStr ''anonymous'')
         | Inl e \<Rightarrow> e = AttributeError \<and>
                    (pqe_track self = None \<or> pqe_time_added self = None)"
proof (cases rule: as_dict_cases [of ctime self])
  case raises
  then show ?thesis by simp
next
  case (returns t ts)
  then show ?thesis
    using assms by (simp add: as_dict_returns getattr_user_def)
qed

text \<open>
  An instance of C5: an entry queued by nobody.
\<close>

theorem as_dict_anonymous_fallback_witness:
  "pqe_user entry_anonymous = None \<and>
   map_sum id (\<lambda>d. (map_of d ''user'', map_of d ''username'')) (as_dict ctime_a entry_anonymous) =
     Inr (Some (PyStr ''Anonymous''), Some (PyStr ''anonymous''))"
  using as_dict_anonymous_fallback [where self = entry_anonymous and ctime = ctime_a]
  by (simp add: entry_anonymous_def as_dict_returns getattr_user_def)

text \<open>
  Claim C6 as stated fails: the dict of an entry has the key \<open>user_id\<close>, which is not in
  the field set the specification lists.
\<close>

theorem as_dict_spec_fields_counterexample:
  "map_sum id (map fst) (as_dict ctime_a entry_anonymous) =
     Inr [''title'', ''artist'', ''album'', ''spotify_url'', ''date'', ''length'',
          ''id'', ''mpd_id'', ''playback_priority'', ''user_priority'',
          ''time_added'', ''user'', ''username'', ''user_id''] \<and>
   ''user_id'' \<notin> spec_fields"
  by (simp add: entry_anonymous_def as_dict_returns spec_fields_def)

text \<open>
  Claim C6, amended. \<^verbatim>\<open>as_dict\<close> returns a dict exactly when the entry has a track and a
  timestamp, and raises AttributeError exactly when it has not. The dict it returns has
  exactly the fields the specification lists and the field \<open>user_id\<close>, each once;
  \<open>user_id\<close> holds the entry's \<open>user_id\<close> column.
\<close>

theorem as_dict_fields:
  "(case as_dict ctime self of
      Inr d \<Rightarrow> set (map fst d) = insert ''user_id'' spec_fields \<and> distinct (map fst d) \<and>
               map_of d ''user_id'' = Some (of_int_column (pqe_user_id self))
    | Inl e \<Rightarrow> e = AttributeError \<and>
               (pqe_track self = None \<or> pqe_time_added self = None)) \<and>
   ((\<exists>d. as_dict ctime self = Inr d) \<longleftrightarrow>
      pqe_track self \<noteq> None \<and> pqe_time_added self \<noteq> None) \<and>
   (as_dict ctime self = Inl AttributeError \<longleftrightarrow>
      pqe_track self = None \<or> pqe_time_added self = None)"
proof -
  have fields: "case as_dict ctime self of
      Inr d \<Rightarrow> set (map fst d) = insert ''user_id'' spec_fields \<and> distinct (map fst d) \<and>
               map_of d ''user_id'' = Some (of_int_column (pqe_user_id self))
    | Inl e \<Rightarrow> e = AttributeError \<and>
               (pqe_track self = None \<or> pqe_time_added self = None)"
  proof (cases rule: as_dict_cases [of ctime self])
    case raises
    then show ?thesis by simp
  next
    case (returns t ts)
    then show ?thesis
      by (auto simp: as_dict_returns spec_fields_def)
  qed
  have raises: "as_dict ctime self = Inl AttributeError \<longleftrightarrow>
      pqe_track self = None \<or> pqe_time_added self = None"
    by (simp add: as_dict_raises)
  have returns: "(\<exists>d. as_dict ctime self = Inr d) \<longleftrightarrow>
      pqe_track self \<noteq> None \<and> pqe_time_added self \<noteq> None"
  proof (cases rule: as_dict_cases [of ctime self])
    case raises
    then show ?thesis by auto
  next
    case (returns t ts)
    then show ?thesis
      by (simp add: as_dict_returns)
  qed
  from fields returns raises show ?thesis by blast
qed

text \<open>
  Instances of the amended C6: the entry queued by the user with id 2 gives the fourteen
  fields, with 2 as \<open>user_id\<close>; the same entry without its track, or without its timestamp,
  raises AttributeError.
\<close>

theorem as_dict_fields_witness:
  "map_sum id (map fst) (as_dict ctime_a entry_bob) =
     Inr [''title'', ''artist'', ''album'', ''spotify_url'', ''date'', ''length'',
          ''id'', ''mpd_id'', ''playback_priority'', ''user_priority'',
          ''time_added'', ''user'', ''username'', ''user_id''] \<and>
   map_sum id (\<lambda>d. map_of d ''user_id'') (as_dict ctime_a entry_bob) = Inr (Some (PyInt 2)) \<and>
   as_dict ctime_a (entry_bob\<lparr>pqe_track := None\<rparr>) = Inl AttributeError \<and>
   as_dict ctime_a (entry_bob\<lparr>pqe_time_added := None\<rparr>) = Inl AttributeError"
  using as_dict_fields [where self = entry_bob and ctime = ctime_a]
    as_dict_fields [where self = "entry_bob\<lparr>pqe_track := None\<rparr>" and ctime = ctime_a]
    as_dict_fields [where self = "entry_bob\<lparr>pqe_time_added := None\<rparr>" and ctime = ctime_a]
  by (simp add: entry_bob_def entry_anonymous_def as_dict_returns of_int_column_def)

text \<open>
  Claim C10. For a queue entry with an attached user, \<^verbatim>\<open>as_dict\<close> gives the user's own
  \<open>name\<close> and \<open>username\<close>, and gives None where the user's attribute is None: the fallback
  literals are not used.
\<close>

theorem as_dict_attached_user:
  assumes "pqe_user self = Some u"
  shows "case as_dict ctime self of
           Inr d \<Rightarrow> map_of d ''user'' = Some (of_str_column (user_name u)) \<and>
                    map_of d ''username'' = Some (of_str_column (user_username u)) \<and>
                    (user_name u = None \<longrightarrow> map_of d ''user'' = Some PyNone) \<and>
                    (user_username u = None \<longrightarrow> map_of d ''username'' = Some PyNone)
         | Inl e \<Rightarrow> e = AttributeError \<and>
                    (pqe_track self = None \<or> pqe_time_added self = None)"
proof (cases rule: as_dict_cases [of ctime self])
  case raises
  then show ?thesis by simp
next
  case (returns t ts)
  then show ?thesis
    using assms by (simp add: as_dict_returns getattr_user_def of_str_column_def)
qed

text \<open>
  An instance of C10: a user whose display name is None.
\<close>

theorem as_dict_attached_user_witness:
  "pqe_user entry_bob = Some user_bob \<and> user_name user_bob = None \<and>
   map_sum id (\<lambda>d. (map_of d ''user'', map_of d ''username'')) (as_dict ctime_a entry_bob) =
     Inr (Some PyNone, Some (PyStr ''bob''))"
  using as_dict_attached_user [where self = entry_bob and u = user_bob and ctime = ctime_a]
  by (simp add: entry_bob_def entry_anonymous_def user_bob_def as_dict_returns getattr_user_def
      of_str_column_def)

section \<open>Creating a user\<close>

text \<open>
  What \<^verbatim>\<open>User.__init__\<close> stores: the name and username as given, as \<open>password\<close> whatever
  the hashing primitive returns for the password, and 0 as \<open>privs\<close>; when the primitive
  raises, so does the constructor. What the primitive's output is, is Werkzeug's.
\<close>

lemma User_init_fields:
  "(generate_password_hash password = Inr h \<longrightarrow>
      User_init generate_password_hash name username password =
        Inr \<lparr>user_id = None, user_name = name, user_username = username,
             user_password = Some h, user_privs = Some 0\<rparr>) \<and>
   (generate_password_hash password = Inl e \<longrightarrow>
      User_init generate_password_hash name username password = Inl e)"
  by (simp add: User_init_def)

section \<open>Votes as stored\<close>

text \<open>
  Claim C4 as stated fails: a vote with neither reference set is stored as it is, and so
  is a vote with both set.
\<close>

theorem vote_target_counterexample:
  "\<not> has_one_target (last (insert_vote 1 vote_no_target [])) \<and>
   \<not> has_one_target (last (insert_vote 1 vote_two_targets []))"
  by (simp add: insert_vote_def has_one_target_def vote_no_target_def vote_two_targets_def)

text \<open>
  Claim C4, amended. A stored vote has the two references \<open>pqe_id\<close> and \<open>phe_id\<close> exactly as
  its writer set them, each of them nullable on its own; so it has exactly one target
  precisely when its writer set exactly one. The rows already stored stay as they are.
\<close>

theorem vote_target_as_written:
  "vote_pqe_id (last (insert_vote new_id v tbl)) = vote_pqe_id v \<and>
   vote_phe_id (last (insert_vote new_id v tbl)) = vote_phe_id v \<and>
   has_one_target (last (insert_vote new_id v tbl)) = has_one_target v \<and>
   butlast (insert_vote new_id v tbl) = tbl"
  by (simp add: insert_vote_def has_one_target_def)

section \<open>The vote aggregator\<close>

lemma on_target_direction [simp]:
  "on_target t (v\<lparr>vote_direction := d\<rparr>) = on_target t v"
  by (cases t) simp_all

lemma on_target_vote_id [simp]:
  "on_target t (v\<lparr>vote_id := i\<rparr>) = on_target t v"
  by (cases t) simp_all

lemma on_target_Vote [simp]: "on_target t' (Vote u t d) = (t' = t)"
  by (cases t; cases t') (auto simp: Vote_def)

lemma length_set_direction [simp]: "length (set_direction u t d vs) = length vs"
  by (induction vs) simp_all

lemma set_direction_other_columns [simp]:
  "map (\<lambda>v. v\<lparr>vote_direction := None\<rparr>) (set_direction u t d vs) =
     map (\<lambda>v. v\<lparr>vote_direction := None\<rparr>) vs"
  by (induction vs) simp_all

lemma length_votes_for_set_direction [simp]:
  "length (votes_for u' t' (set_direction u t d vs)) = length (votes_for u' t' vs)"
  by (induction vs) (auto simp: votes_for_def)

lemma set_direction_skip:
  "votes_for u t vs = [] \<Longrightarrow> set_direction u t d (vs @ ws) = vs @ set_direction u t d ws"
  by (induction vs) (auto simp: votes_for_def split: if_splits)

lemma set_direction_idem:
  "set_direction u t d (set_direction u t d vs) = set_direction u t d vs"
  by (induction vs) simp_all

lemma votes_for_set_direction:
  "votes_for u t vs = w # ws \<Longrightarrow>
     votes_for u t (set_direction u t d vs) = w\<lparr>vote_direction := Some d\<rparr> # ws"
  by (induction vs) (simp_all add: votes_for_def split: if_splits)

lemma directions_set_direction:
  "set (map vote_direction (set_direction u t d vs)) \<subseteq> insert (Some d) (set (map vote_direction vs))"
  by (induction vs) auto

lemma votes_for_insert_vote:
  "votes_for u' t' (insert_vote i (Vote u t d) vs) =
     votes_for u' t' vs @
       (if u' = u \<and> t' = t then [\<lparr>vote_id = Some i, vote_user_id = Some u,
             vote_pqe_id = (case t of QueueTarget q \<Rightarrow> Some q | HistoryTarget h \<Rightarrow> None),
             vote_phe_id = (case t of QueueTarget q \<Rightarrow> None | HistoryTarget h \<Rightarrow> Some h),
             vote_direction = Some d\<rparr>] else [])"
  by (cases t; cases t')
    (auto simp: votes_for_def insert_vote_def Vote_def column_or_default_def)

lemma cast_vote_unique:
  assumes "vote_unique vs"
  shows "vote_unique (cast_vote i u t d vs)"
proof (cases "votes_for u t vs = []")
  case True
  have "length (votes_for u' t' (insert_vote i (Vote u t d) vs)) \<le> 1" for u' t'
  proof (cases "u' = u \<and> t' = t")
    case True
    with \<open>votes_for u t vs = []\<close> show ?thesis
      by (simp add: votes_for_insert_vote)
  next
    case False
    with assms show ?thesis
      by (auto simp: votes_for_insert_vote vote_unique_def)
  qed
  with True show ?thesis
    by (simp add: cast_vote_def vote_unique_def)
next
  case False
  with assms show ?thesis
    by (simp add: cast_vote_def vote_unique_def)
qed

lemma cast_votes_unique: "vote_unique vs \<Longrightarrow> vote_unique (cast_votes cs vs)"
  by (induction cs vs rule: cast_votes.induct) (simp_all add: cast_vote_unique)

lemma cast_vote_idem:
  "cast_vote j u t d (cast_vote i u t d vs) = cast_vote i u t d vs"
proof (cases "votes_for u t vs = []")
  case True
  have "votes_for u t (insert_vote i (Vote u t d) vs) \<noteq> []"
    by (simp add: votes_for_insert_vote)
  moreover have "set_direction u t d (insert_vote i (Vote u t d) vs) = insert_vote i (Vote u t d) vs"
    using True unfolding insert_vote_def
    by (cases t) (simp_all add: set_direction_skip Vote_def column_or_default_def)
  ultimately show ?thesis
    using True by (simp add: cast_vote_def)
next
  case False
  then have "votes_for u t (set_direction u t d vs) \<noteq> []"
    by (metis length_votes_for_set_direction length_0_conv)
  with False show ?thesis
    by (simp add: cast_vote_def set_direction_idem)
qed

lemma votes_for_cast_vote:
  assumes "length (votes_for u t vs) \<le> 1"
  shows "\<exists>v. votes_for u t (cast_vote i u t d vs) = [v] \<and> vote_direction v = Some d \<and>
              vote_user_id v = Some u \<and> on_target t v"
proof (cases "votes_for u t vs")
  case Nil
  then show ?thesis
    by (cases t) (simp_all add: cast_vote_def votes_for_insert_vote)
next
  case (Cons w ws)
  with assms have ws: "ws = []" by simp
  have "w \<in> set (votes_for u t vs)" using Cons by simp
  then have "vote_user_id w = Some u" and "on_target t w"
    by (simp_all add: votes_for_def)
  with Cons ws show ?thesis
    by (simp add: cast_vote_def votes_for_set_direction)
qed

lemma tally_Nil [simp]: "tally t [] = 0"
  by (simp add: tally_def)

lemma tally_Cons [simp]:
  "tally t (v # vs) = (if on_target t v then (case vote_direction v of None \<Rightarrow> 0 | Some d \<Rightarrow> d) else 0) + tally t vs"
  by (simp add: tally_def)

lemma tally_append [simp]: "tally t (vs @ ws) = tally t vs + tally t ws"
  by (simp add: tally_def)

lemma tally_without_user:
  "votes_for u t vs = [] \<Longrightarrow> tally t (filter (\<lambda>v. vote_user_id v \<noteq> Some u) vs) = tally t vs"
  by (induction vs) (auto simp: votes_for_def split: if_splits)

lemma tally_set_direction:
  assumes "length (votes_for u t vs) \<le> 1" and "votes_for u t vs \<noteq> []"
  shows "tally t (set_direction u t d vs) = d + tally t (filter (\<lambda>v. vote_user_id v \<noteq> Some u) vs)"
  using assms
proof (induction vs)
  case Nil
  then show ?case by (simp add: votes_for_def)
next
  case (Cons v vs)
  show ?case
  proof (cases "vote_user_id v = Some u \<and> on_target t v")
    case True
    with Cons.prems have "votes_for u t vs = []"
      by (simp add: votes_for_def)
    with True show ?thesis
      by (simp add: tally_without_user)
  next
    case False
    with Cons.prems have "length (votes_for u t vs) \<le> 1" and "votes_for u t vs \<noteq> []"
      by (auto simp: votes_for_def)
    with Cons.IH have "tally t (set_direction u t d vs) =
        d + tally t (filter (\<lambda>v. vote_user_id v \<noteq> Some u) vs)"
      by simp
    with False show ?thesis by auto
  qed
qed

lemma tally_cast_vote:
  assumes "length (votes_for u t vs) \<le> 1"
  shows "tally t (cast_vote i u t d vs) = d + tally t (filter (\<lambda>v. vote_user_id v \<noteq> Some u) vs)"
proof (cases "votes_for u t vs = []")
  case True
  then show ?thesis
    by (cases t)
      (simp_all add: cast_vote_def insert_vote_def tally_without_user Vote_def
        column_or_default_def)
next
  case False
  with assms show ?thesis
    by (simp add: cast_vote_def tally_set_direction)
qed

lemma tally_only_user:
  "\<forall>v\<in>set vs. on_target t v \<longrightarrow> vote_user_id v = Some u \<Longrightarrow>
     tally t (filter (\<lambda>v. vote_user_id v \<noteq> Some u) vs) = 0"
  by (induction vs) auto

lemma cast_vote_other_columns:
  "votes_for u t vs \<noteq> [] \<Longrightarrow>
     map (\<lambda>v. v\<lparr>vote_direction := None\<rparr>) (cast_vote i u t d vs) =
     map (\<lambda>v. v\<lparr>vote_direction := None\<rparr>) vs"
  by (simp add: cast_vote_def)

lemma directions_cast_vote:
  "set (map vote_direction (cast_vote i u t d vs)) \<subseteq> insert (Some d) (set (map vote_direction vs))"
proof (cases "votes_for u t vs = []")
  case True
  then show ?thesis
    by (auto simp: cast_vote_def insert_vote_def Vote_def column_or_default_def)
next
  case False
  then show ?thesis
    using directions_set_direction [of u t d vs] by (simp add: cast_vote_def)
qed

text \<open>
  Claim C2. Votes cast from the empty store leave at most one row for each user and
  target, and \<open>cast_vote\<close> keeps that; where a row for the user and target exists it is
  updated in place (no row is added, and the rows differ from before in their direction
  only); casting the same direction a
  second time changes nothing; after it there is exactly one row for the user and target,
  with that direction, and the tally of the target is the direction plus the other users'
  votes on it, so it is the direction itself when no other user has voted on the target.
\<close>

theorem cast_vote_one_row:
  "vote_unique (cast_votes cs []) \<and>
   (vote_unique votes \<longrightarrow> vote_unique (cast_vote i u t d votes)) \<and>
   (votes_for u t votes \<noteq> [] \<longrightarrow>
      map (\<lambda>v. v\<lparr>vote_direction := None\<rparr>) (cast_vote i u t d votes) =
      map (\<lambda>v. v\<lparr>vote_direction := None\<rparr>) votes) \<and>
   cast_vote j u t d (cast_vote i u t d votes) = cast_vote i u t d votes \<and>
   (vote_unique votes \<longrightarrow>
      (\<exists>v. votes_for u t (cast_vote j u t d (cast_vote i u t d votes)) = [v] \<and>
           vote_direction v = Some d) \<and>
      tally t (cast_vote j u t d (cast_vote i u t d votes)) =
        d + tally t (filter (\<lambda>v. vote_user_id v \<noteq> Some u) votes)) \<and>
   (vote_unique votes \<and> (\<forall>v\<in>set votes. on_target t v \<longrightarrow> vote_user_id v = Some u) \<longrightarrow>
      tally t (cast_vote j u t d (cast_vote i u t d votes)) = d)"
proof -
  have empty: "vote_unique []"
    by (simp add: vote_unique_def votes_for_def)
  have a: "vote_unique (cast_votes cs [])"
    by (rule cast_votes_unique [OF empty])
  have b: "vote_unique (cast_vote i u t d votes)" if "vote_unique votes"
    using that by (rule cast_vote_unique)
  have c: "map (\<lambda>v. v\<lparr>vote_direction := None\<rparr>) (cast_vote i u t d votes) =
      map (\<lambda>v. v\<lparr>vote_direction := None\<rparr>) votes" if "votes_for u t votes \<noteq> []"
    using that by (rule cast_vote_other_columns)
  have twice: "cast_vote j u t d (cast_vote i u t d votes) = cast_vote i u t d votes"
    by (rule cast_vote_idem)
  have one: "length (votes_for u t votes) \<le> 1" if "vote_unique votes"
    using that by (simp add: vote_unique_def)
  have e: "\<exists>v. votes_for u t (cast_vote i u t d votes) = [v] \<and> vote_direction v = Some d"
    if "vote_unique votes"
    using votes_for_cast_vote [OF one [OF that], of i d] by blast
  have f: "tally t (cast_vote i u t d votes) =
      d + tally t (filter (\<lambda>v. vote_user_id v \<noteq> Some u) votes)" if "vote_unique votes"
    using one [OF that] by (rule tally_cast_vote)
  have g: "tally t (cast_vote i u t d votes) = d"
    if "vote_unique votes" and "\<forall>v\<in>set votes. on_target t v \<longrightarrow> vote_user_id v = Some u"
    using f [OF that(1)] tally_only_user [OF that(2)] by simp
  from a b c e f g show ?thesis
    unfolding twice by blast
qed

text \<open>
  Instances of C2: a vote of +1 cast twice on the empty store leaves one row and a tally of
  1; a second user's vote of -1 changed to +1 is updated in place and the tally is 2.
\<close>

theorem cast_vote_one_row_witness:
  "vote_unique [] \<and>
   cast_vote 2 10 (QueueTarget 5) 1 (cast_vote 1 10 (QueueTarget 5) 1 []) = [vote_alice] \<and>
   tally (QueueTarget 5) (cast_vote 2 10 (QueueTarget 5) 1 (cast_vote 1 10 (QueueTarget 5) 1 [])) = 1 \<and>
   vote_unique [vote_alice, vote_bob] \<and> votes_for 11 (QueueTarget 5) [vote_alice, vote_bob] \<noteq> [] \<and>
   cast_vote 3 11 (QueueTarget 5) 1 [vote_alice, vote_bob] =
     [vote_alice, vote_bob\<lparr>vote_direction := Some 1\<rparr>] \<and>
   tally (QueueTarget 5) (cast_vote 3 11 (QueueTarget 5) 1 [vote_alice, vote_bob]) = 2"
proof -
  have u: "vote_unique []"
    by (simp add: vote_unique_def votes_for_def)
  have "vote_unique (cast_votes [(1, 10, QueueTarget 5, 1), (2, 11, QueueTarget 5, - 1)] [])"
    using cast_vote_one_row [of "[(1, 10, QueueTarget 5, 1), (2, 11, QueueTarget 5, - 1)]"]
    by blast
  then have v: "vote_unique [vote_alice, vote_bob]"
    by (simp add: cast_vote_def votes_for_def insert_vote_def Vote_def column_or_default_def
        vote_alice_def vote_bob_def)
  show ?thesis
    using u v cast_vote_one_row [of "[]" "[]" 1 10 "QueueTarget 5" 1 2]
      cast_vote_one_row [of "[]" "[vote_alice, vote_bob]" 3 11 "QueueTarget 5" 1 3]
    by (simp add: cast_vote_def votes_for_def insert_vote_def Vote_def column_or_default_def
        vote_alice_def vote_bob_def tally_def)
qed

lemma migrate_votes_simps [simp]:
  "migrate_votes q h [] = []"
  "migrate_votes q h (v # vs) =
     (if vote_pqe_id v = Some q then v\<lparr>vote_pqe_id := None, vote_phe_id := Some h\<rparr> else v)
       # migrate_votes q h vs"
  by (simp_all add: migrate_votes_def)

lemma migrate_votes_pairs:
  "\<forall>v\<in>set vs. vote_phe_id v \<noteq> Some h \<Longrightarrow>
     map (\<lambda>v. (vote_user_id v, vote_direction v))
       (filter (on_target (HistoryTarget h)) (migrate_votes q h vs)) =
     map (\<lambda>v. (vote_user_id v, vote_direction v)) (filter (on_target (QueueTarget q)) vs)"
  by (induction vs) simp_all

lemma migrate_votes_tally:
  "\<forall>v\<in>set vs. vote_phe_id v \<noteq> Some h \<Longrightarrow>
     tally (HistoryTarget h) (migrate_votes q h vs) = tally (QueueTarget q) vs"
  by (induction vs) simp_all

lemma migrate_votes_none_left:
  "filter (on_target (QueueTarget q)) (migrate_votes q h vs) = []"
  by (induction vs) simp_all

lemma migrate_votes_other_columns:
  "map (\<lambda>v. v\<lparr>vote_pqe_id := None, vote_phe_id := None\<rparr>) (migrate_votes q h vs) =
     map (\<lambda>v. v\<lparr>vote_pqe_id := None, vote_phe_id := None\<rparr>) vs"
  by (induction vs) simp_all

lemma migrate_votes_others:
  "\<forall>v\<in>set vs. vote_phe_id v \<noteq> Some h \<Longrightarrow>
     filter (\<lambda>v. \<not> on_target (HistoryTarget h) v) (migrate_votes q h vs) =
     filter (\<lambda>v. \<not> on_target (QueueTarget q) v) vs"
  by (induction vs) simp_all

text \<open>
  Claim C3. When no vote refers to the new history entry \<open>h\<close> yet, \<open>migrate_votes q h\<close>
  leaves on \<open>h\<close> the (user, direction) pairs that were on the queue entry \<open>q\<close>, as a
  multiset, and the tally of \<open>h\<close> after it is the tally of \<open>q\<close> before; no vote is left
  on \<open>q\<close>, every row keeps its key, user and direction, and the votes on other targets are
  untouched.
\<close>

theorem migrate_votes_preserves:
  assumes "\<forall>v\<in>set votes. vote_phe_id v \<noteq> Some h"
  shows "mset (map (\<lambda>v. (vote_user_id v, vote_direction v))
            (filter (on_target (HistoryTarget h)) (migrate_votes q h votes))) =
         mset (map (\<lambda>v. (vote_user_id v, vote_direction v))
            (filter (on_target (QueueTarget q)) votes)) \<and>
         tally (HistoryTarget h) (migrate_votes q h votes) = tally (QueueTarget q) votes \<and>
         filter (on_target (QueueTarget q)) (migrate_votes q h votes) = [] \<and>
         map (\<lambda>v. v\<lparr>vote_pqe_id := None, vote_phe_id := None\<rparr>) (migrate_votes q h votes) =
           map (\<lambda>v. v\<lparr>vote_pqe_id := None, vote_phe_id := None\<rparr>) votes \<and>
         filter (\<lambda>v. \<not> on_target (HistoryTarget h) v) (migrate_votes q h votes) =
           filter (\<lambda>v. \<not> on_target (QueueTarget q) v) votes"
proof -
  have "map (\<lambda>v. (vote_user_id v, vote_direction v))
          (filter (on_target (HistoryTarget h)) (migrate_votes q h votes)) =
        map (\<lambda>v. (vote_user_id v, vote_direction v)) (filter (on_target (QueueTarget q)) votes)"
    using assms by (rule migrate_votes_pairs)
  then have "mset (map (\<lambda>v. (vote_user_id v, vote_direction v))
            (filter (on_target (HistoryTarget h)) (migrate_votes q h votes))) =
         mset (map (\<lambda>v. (vote_user_id v, vote_direction v))
            (filter (on_target (QueueTarget q)) votes))"
    by (rule arg_cong)
  moreover note migrate_votes_tally [OF assms, of q] migrate_votes_none_left [of q h votes]
    migrate_votes_other_columns [of q h votes] migrate_votes_others [OF assms, of q]
  ultimately show ?thesis by blast
qed

text \<open>
  An instance of C3: the votes of two users on queue entry 5 moved to history entry 9.
\<close>

theorem migrate_votes_preserves_witness:
  "vote_phe_id vote_alice \<noteq> Some 9 \<and> vote_phe_id vote_bob \<noteq> Some 9 \<and>
   migrate_votes 5 9 [vote_alice, vote_bob] =
     [vote_alice\<lparr>vote_pqe_id := None, vote_phe_id := Some 9\<rparr>,
      vote_bob\<lparr>vote_pqe_id := None, vote_phe_id := Some 9\<rparr>] \<and>
   tally (QueueTarget 5) [vote_alice, vote_bob] = 0 \<and>
   tally (HistoryTarget 9) (migrate_votes 5 9 [vote_alice, vote_bob]) = 0"
  using migrate_votes_preserves [of "[vote_alice, vote_bob]" 9 5]
  by (simp add: vote_alice_def vote_bob_def)

text \<open>
  Claim C7 as stated fails: a vote written with direction 5 is stored with direction 5.
\<close>

theorem vote_direction_counterexample:
  "vote_direction (last (insert_vote 1 vote_five [])) = Some 5 \<and>
   \<not> valid_direction (vote_direction (last (insert_vote 1 vote_five [])))"
  by (simp add: insert_vote_def vote_five_def vote_no_target_def valid_direction_def
      column_or_default_def)

text \<open>
  Claim C7, amended. A vote created without a direction is stored with direction 0, and
  one created with a direction is stored with that direction, whatever integer it is; so a
  stored direction is one of -1, 0, +1 precisely when the writer gave none or one of these.
  \<open>cast_vote\<close> with a direction among -1, 0, +1 keeps all directions among them. Retracting
  a vote, \<open>cast_vote\<close> with 0 on an existing row, keeps every row, changes no other column
  and sets the direction of the user's row to 0.
\<close>

theorem vote_direction_default_and_retract:
  "vote_direction (last (insert_vote new_id v tbl)) =
     (case vote_direction v of None \<Rightarrow> Some 0 | Some d \<Rightarrow> Some d) \<and>
   (valid_direction (vote_direction (last (insert_vote new_id v tbl))) \<longleftrightarrow>
      vote_direction v = None \<or> valid_direction (vote_direction v)) \<and>
   ((\<forall>w\<in>set votes. valid_direction (vote_direction w)) \<and> valid_direction (Some d) \<longrightarrow>
      (\<forall>w\<in>set (cast_vote i u t d votes). valid_direction (vote_direction w))) \<and>
   (votes_for u t votes \<noteq> [] \<longrightarrow>
      map (\<lambda>v. v\<lparr>vote_direction := None\<rparr>) (cast_vote i u t 0 votes) =
        map (\<lambda>v. v\<lparr>vote_direction := None\<rparr>) votes \<and>
      length (votes_for u t (cast_vote i u t 0 votes)) = length (votes_for u t votes) \<and>
      vote_direction (hd (votes_for u t (cast_vote i u t 0 votes))) = Some 0)"
proof -
  have a: "vote_direction (last (insert_vote new_id v tbl)) =
     (case vote_direction v of None \<Rightarrow> Some 0 | Some d \<Rightarrow> Some d)"
    by (simp add: insert_vote_def column_or_default_def)
  have b: "valid_direction (vote_direction (last (insert_vote new_id v tbl))) \<longleftrightarrow>
      vote_direction v = None \<or> valid_direction (vote_direction v)"
    unfolding a by (cases "vote_direction v") (simp_all add: valid_direction_def)
  have c: "\<forall>w\<in>set (cast_vote i u t d votes). valid_direction (vote_direction w)"
    if "\<forall>w\<in>set votes. valid_direction (vote_direction w)" and "valid_direction (Some d)"
  proof
    fix w assume "w \<in> set (cast_vote i u t d votes)"
    then have "vote_direction w \<in> set (map vote_direction (cast_vote i u t d votes))"
      by simp
    with directions_cast_vote [of i u t d votes]
    have "vote_direction w = Some d \<or> vote_direction w \<in> set (map vote_direction votes)"
      by blast
    with that show "valid_direction (vote_direction w)" by auto
  qed
  have r: "map (\<lambda>v. v\<lparr>vote_direction := None\<rparr>) (cast_vote i u t 0 votes) =
        map (\<lambda>v. v\<lparr>vote_direction := None\<rparr>) votes \<and>
      length (votes_for u t (cast_vote i u t 0 votes)) = length (votes_for u t votes) \<and>
      vote_direction (hd (votes_for u t (cast_vote i u t 0 votes))) = Some 0"
    if "votes_for u t votes \<noteq> []"
  proof -
    from that obtain w ws where "votes_for u t votes = w # ws"
      by (cases "votes_for u t votes") simp_all
    with that show ?thesis
      by (simp add: cast_vote_def votes_for_set_direction)
  qed
  from a b c r show ?thesis by blast
qed

text \<open>
  An instance of the amended C7.
\<close>

theorem vote_direction_default_and_retract_witness:
  "vote_direction (last (insert_vote 1 vote_no_target [])) = Some 0 \<and>
   valid_direction (vote_direction (last (insert_vote 1 vote_no_target []))) \<and>
   valid_direction (vote_direction vote_alice) \<and>
   valid_direction (vote_direction vote_bob) \<and> valid_direction (Some 0) \<and>
   votes_for 10 (QueueTarget 5) [vote_alice, vote_bob] \<noteq> [] \<and>
   cast_vote 3 10 (QueueTarget 5) 0 [vote_alice, vote_bob] =
     [vote_alice\<lparr>vote_direction := Some 0\<rparr>, vote_bob]"
  using vote_direction_default_and_retract [of 1 vote_no_target "[]" "[vote_alice, vote_bob]" 0
      3 10 "QueueTarget 5"]
  by (simp add: insert_vote_def column_or_default_def vote_no_target_def valid_direction_def
      vote_alice_def vote_bob_def cast_vote_def votes_for_def)

end
